theory Spec2Isabelle
  imports Complex_Main "HOL-Library.Product_Lexorder"
begin

section \<open>Python numbers\<close>

text \<open>
  Amounts are Python integers (unbounded, \<open>int\<close>). Interest rates and the system-loan
  ratio are Python floats, that is IEEE binary64 values; such a value is represented by
  the rational number it denotes, and every float operation is the exact operation
  followed by rounding to the nearest binary64 value, ties to even (\<open>fl\<close>). A result
  beyond the binary64 range is \<open>None\<close>: in the expressions below it ends in an exception
  (\<open>OverflowError\<close> from the int-to-float conversion, or from \<open>int()\<close> applied to
  an infinity).
\<close>

function bit_length :: "int \<Rightarrow> int" where
  "bit_length n = (if n \<le> 0 then 0 else 1 + bit_length (n div 2))"
  by pat_completeness auto
termination
  by (relation "measure nat") auto

declare bit_length.simps [simp del]

definition pow2 :: "int \<Rightarrow> rat" where
  "pow2 k = (if 0 \<le> k then 2 ^ nat k else 1 / 2 ^ nat (- k))"

definition ilog2 :: "rat \<Rightarrow> int" where
  \<comment> \<open>for \<open>x > 0\<close>: the exponent \<open>e\<close> with \<open>2^e \<le> x < 2^(e+1)\<close>\<close>
  "ilog2 x =
     (let (a, b) = quotient_of x;
          k = bit_length a - bit_length b
      in if pow2 k \<le> x then k else k - 1)"

definition round_half_even :: "rat \<Rightarrow> int" where
  "round_half_even q =
     (let (a, b) = quotient_of q;
          f = a div b;
          d = q - of_int f
      in if d < 1 / 2 then f
         else if 1 / 2 < d then f + 1
         else if even f then f else f + 1)"

definition fl :: "rat \<Rightarrow> rat option" where
  \<comment> \<open>53 bits of precision, exponents from -1022 (below: subnormal spacing) to 1023\<close>
  "fl x =
     (if x = 0 then Some 0
      else let e = ilog2 \<bar>x\<bar>;
               u = pow2 (max (e - 52) (- 1074));
               n = round_half_even (x / u)
           in if 1024 \<le> e \<or> (e = 1023 \<and> \<bar>n\<bar> = 2 ^ 53) then None
              else Some (of_int n * u))"

definition float_add :: "rat \<Rightarrow> rat \<Rightarrow> rat option" where
  "float_add x y = fl (x + y)"

definition float_mul :: "rat \<Rightarrow> rat \<Rightarrow> rat option" where
  "float_mul x y = fl (x * y)"

definition py_int :: "rat \<Rightarrow> int" where
  \<comment> \<open>\<open>int(x)\<close> of a float: truncation towards zero\<close>
  "py_int x = (let (a, b) = quotient_of x in if 0 \<le> a then a div b else - ((- a) div b))"

definition int_times_one_plus :: "int \<Rightarrow> rat \<Rightarrow> int option" where
  \<comment> \<open>\<open>int(n * (1 + r))\<close> for an int \<open>n\<close> and a float \<open>r\<close>\<close>
  "int_times_one_plus n r =
     (case float_add 1 r of
        None \<Rightarrow> None
      | Some s \<Rightarrow>
          (case fl (of_int n) of
             None \<Rightarrow> None
           | Some p \<Rightarrow>
               (case float_mul p s of
                  None \<Rightarrow> None
                | Some d \<Rightarrow> Some (py_int d))))"

definition int_times_float :: "int \<Rightarrow> rat \<Rightarrow> int option" where
  \<comment> \<open>\<open>int(n * r)\<close> for an int \<open>n\<close> and a float \<open>r\<close>\<close>
  "int_times_float n r =
     (case fl (of_int n) of
        None \<Rightarrow> None
      | Some p \<Rightarrow>
          (case float_mul p r of
             None \<Rightarrow> None
           | Some d \<Rightarrow> Some (py_int d)))"

section \<open>Loan records (core/domain/loan\_models.py)\<close>

datatype loan_status = Pending | Active | Overdue | Paid

text \<open>
  Timestamps are microseconds on the clock that \<open>datetime.now()\<close> reads. A loan that
  has not been inserted yet has \<open>loan_id = 0\<close> (Python's \<open>None\<close>); the keys that
  AUTOINCREMENT hands out start at 1.
\<close>

record loan =
  loan_id :: nat
  lender_id :: string
  borrower_id :: string
  principal :: int
  interest_rate :: rat
  borrowed_at :: int
  due_amount :: int
  repaid_amount :: int
  status :: loan_status
  due_date :: "int option"
  created_at :: "int option"
  updated_at :: "int option"

definition SYSTEM :: string where
  "SYSTEM = ''SYSTEM''"

definition calculate_due_amount :: "loan \<Rightarrow> int option" where
  "calculate_due_amount l = int_times_one_plus (principal l) (interest_rate l)"

definition remaining_amount :: "loan \<Rightarrow> int" where
  "remaining_amount l = max 0 (due_amount l - repaid_amount l)"

definition is_paid_off :: "loan \<Rightarrow> bool" where
  "is_paid_off l = (due_amount l \<le> repaid_amount l)"

definition is_overdue :: "int \<Rightarrow> loan \<Rightarrow> bool" where
  "is_overdue now l =
     (if lender_id l \<noteq> SYSTEM then False
      else case due_date l of
             None \<Rightarrow> False
           | Some d \<Rightarrow> if status l = Paid then False else d < now)"

definition is_system_loan :: "loan \<Rightarrow> bool" where
  "is_system_loan l = (lender_id l = SYSTEM)"

section \<open>The store\<close>

text \<open>
  The \<open>loans\<close> table is the list of its rows in insertion order. The \<open>users\<close> table
  belongs to the user repository; the loan service reads and writes two of its columns.
\<close>

record user =
  coins :: int
  max_coins :: int

record db =
  users :: "string \<rightharpoonup> user"
  loans :: "loan list"

definition sort_desc :: "('a \<Rightarrow> 'k::linorder) \<Rightarrow> 'a list \<Rightarrow> 'a list" where
  \<comment> \<open>descending by key; rows with equal keys stay in their order\<close>
  "sort_desc k xs = rev (sort_key k (rev xs))"

subsection \<open>SQL statements on \<open>users\<close> issued by the loan service\<close>

definition sql_credit :: "string \<Rightarrow> int \<Rightarrow> db \<Rightarrow> db" where
  \<comment> \<open>\<open>UPDATE users SET coins = coins + ? WHERE user_id = ?\<close>\<close>
  "sql_credit uid amt s =
     (case users s uid of
        None \<Rightarrow> s
      | Some u \<Rightarrow> s\<lparr>users := (users s)(uid \<mapsto> u\<lparr>coins := coins u + amt\<rparr>)\<rparr>)"

definition sql_debit :: "string \<Rightarrow> int \<Rightarrow> db \<Rightarrow> db" where
  \<comment> \<open>\<open>UPDATE users SET coins = MAX(0, coins - ?) WHERE user_id = ?\<close>\<close>
  "sql_debit uid amt s =
     (case users s uid of
        None \<Rightarrow> s
      | Some u \<Rightarrow> s\<lparr>users := (users s)(uid \<mapsto> u\<lparr>coins := max 0 (coins u - amt)\<rparr>)\<rparr>)"

definition sql_set_coins :: "string \<Rightarrow> int \<Rightarrow> db \<Rightarrow> db" where
  \<comment> \<open>\<open>UPDATE users SET coins = ? WHERE user_id = ?\<close>\<close>
  "sql_set_coins uid v s =
     (case users s uid of
        None \<Rightarrow> s
      | Some u \<Rightarrow> s\<lparr>users := (users s)(uid \<mapsto> u\<lparr>coins := v\<rparr>)\<rparr>)"

definition sql_raise_max_coins :: "string \<Rightarrow> db \<Rightarrow> db" where
  \<comment> \<open>\<open>UPDATE users SET max_coins = coins WHERE user_id = ? AND coins > max_coins\<close>\<close>
  "sql_raise_max_coins uid s =
     (case users s uid of
        None \<Rightarrow> s
      | Some u \<Rightarrow>
          if max_coins u < coins u
          then s\<lparr>users := (users s)(uid \<mapsto> u\<lparr>max_coins := coins u\<rparr>)\<rparr>
          else s)"

subsection \<open>Statements on \<open>loans\<close>\<close>

definition next_loan_id :: "loan list \<Rightarrow> nat" where
  \<comment> \<open>\<open>INTEGER PRIMARY KEY AUTOINCREMENT\<close>: one more than the largest key\<close>
  "next_loan_id t = Suc (fold max (map loan_id t) 0)"

definition sql_insert_loan :: "int \<Rightarrow> loan \<Rightarrow> db \<Rightarrow> nat \<times> db" where
  "sql_insert_loan now l s =
     (let i = next_loan_id (loans s);
          row = l\<lparr>loan_id := i, created_at := Some now, updated_at := Some now\<rparr>
      in (i, s\<lparr>loans := loans s @ [row]\<rparr>))"

definition sql_update_loan :: "int \<Rightarrow> nat \<Rightarrow> int \<Rightarrow> loan_status \<Rightarrow> db \<Rightarrow> db" where
  \<comment> \<open>\<open>UPDATE loans SET repaid_amount = ?, status = ?, updated_at = ? WHERE loan_id = ?\<close>\<close>
  "sql_update_loan now i r st s =
     s\<lparr>loans := map (\<lambda>l. if loan_id l = i
                            then l\<lparr>repaid_amount := r, status := st, updated_at := Some now\<rparr>
                            else l) (loans s)\<rparr>"

definition sql_activate_loan :: "int \<Rightarrow> nat \<Rightarrow> db \<Rightarrow> db" where
  \<comment> \<open>\<open>UPDATE loans SET status = 'active', borrowed_at = ?, updated_at = ? WHERE loan_id = ?\<close>\<close>
  "sql_activate_loan now i s =
     s\<lparr>loans := map (\<lambda>l. if loan_id l = i
                            then l\<lparr>status := Active, borrowed_at := now, updated_at := Some now\<rparr>
                            else l) (loans s)\<rparr>"

section \<open>The loan repository (core/repositories/sqlite\_loan\_repo.py)\<close>

definition repo_create_loan :: "int \<Rightarrow> loan \<Rightarrow> db \<Rightarrow> nat \<times> db" where
  \<comment> \<open>\<open>SqliteLoanRepository.create_loan\<close>\<close>
  "repo_create_loan now l s = sql_insert_loan now l s"

definition get_loan_by_id :: "db \<Rightarrow> nat \<Rightarrow> loan option" where
  "get_loan_by_id s i = find (\<lambda>l. loan_id l = i) (loans s)"

definition get_active_loans_between_users :: "db \<Rightarrow> string \<Rightarrow> string \<Rightarrow> loan list" where
  "get_active_loans_between_users s lender borrower =
     sort_desc borrowed_at
       (filter (\<lambda>l. lender_id l = lender \<and> borrower_id l = borrower \<and> status l = Active)
          (loans s))"

definition get_loans_by_lender :: "db \<Rightarrow> string \<Rightarrow> loan_status option \<Rightarrow> loan list" where
  "get_loans_by_lender s lender st =
     (case st of
        Some v \<Rightarrow> sort_desc borrowed_at
                    (filter (\<lambda>l. lender_id l = lender \<and> status l = v) (loans s))
      | None \<Rightarrow> sort_desc borrowed_at (filter (\<lambda>l. lender_id l = lender) (loans s)))"

definition get_loans_by_borrower :: "db \<Rightarrow> string \<Rightarrow> loan_status option \<Rightarrow> loan list" where
  "get_loans_by_borrower s borrower st =
     (case st of
        Some v \<Rightarrow> sort_desc borrowed_at
                    (filter (\<lambda>l. borrower_id l = borrower \<and> status l = v) (loans s))
      | None \<Rightarrow> sort_desc borrowed_at (filter (\<lambda>l. borrower_id l = borrower) (loans s)))"

definition update_loan_repayment :: "int \<Rightarrow> nat \<Rightarrow> int \<Rightarrow> loan_status \<Rightarrow> db \<Rightarrow> bool \<times> db" where
  \<comment> \<open>the flag is \<open>cursor.rowcount > 0\<close>\<close>
  "update_loan_repayment now i r st s =
     (list_ex (\<lambda>l. loan_id l = i) (loans s), sql_update_loan now i r st s)"

definition get_all_active_loans :: "db \<Rightarrow> loan list" where
  "get_all_active_loans s = sort_desc borrowed_at (filter (\<lambda>l. status l = Active) (loans s))"

definition get_active_system_loan :: "db \<Rightarrow> string \<Rightarrow> loan option" where
  \<comment> \<open>\<open>... AND status = 'active' ORDER BY borrowed_at DESC LIMIT 1\<close>\<close>
  "get_active_system_loan s borrower =
     (case sort_desc borrowed_at
             (filter (\<lambda>l. lender_id l = SYSTEM \<and> borrower_id l = borrower \<and> status l = Active)
                (loans s)) of
        [] \<Rightarrow> None
      | l # _ \<Rightarrow> Some l)"

definition has_overdue_system_loan :: "int \<Rightarrow> db \<Rightarrow> string \<Rightarrow> bool" where
  "has_overdue_system_loan now s borrower =
     (0 < length
        (filter (\<lambda>l. lender_id l = SYSTEM \<and> borrower_id l = borrower
                      \<and> (status l = Active \<or> status l = Overdue)
                      \<and> (case due_date l of None \<Rightarrow> False | Some d \<Rightarrow> d < now))
           (loans s)))"

section \<open>The loan service (core/services/loan\_service.py)\<close>

text \<open>
  \<open>user_update_raises\<close> says for which accounts \<open>user_repo.update\<close> raises (a fault of
  the store); \<open>_update_coins\<close> catches that exception and returns \<open>False\<close>.
\<close>

record loan_service =
  default_interest_rate :: rat
  system_loan_ratio :: rat
  system_loan_days :: int
  user_update_raises :: "string \<Rightarrow> bool"

definition usec_per_day :: int where
  "usec_per_day = 86400000000"

text \<open>
  The replies are formatted strings in the source; a reply is represented by its kind
  together with the values that the source formats into it.
\<close>

datatype message =
    SelfLoan
  | PrincipalNotPositive
  | LoanRequested string int rat nat
  | LenderAccountMissing
  | LenderCoinsShort int
  | BorrowerAccountMissing
  | LoanCreated int rat int nat
  | LoanMissing
  | NotTheBorrower
  | WrongStatus loan_status
  | LenderBroke
  | LoanConfirmed int
  | NoCoins
  | NoDebt
  | RepaidAll int int "(nat \<times> string \<times> int) list"
  | RepayNotPositive
  | CoinsShort int
  | NoLoanOwed string
  | Repaid int "nat list" "int option"
  | NothingToCollect
  | CollectNotPositive
  | BorrowerHasNoCoins
  | DebitFailed
  | CreditFailed
  | Collected int "nat list" "int option" "(int \<times> int) option"
  | AccountMissing
  | SystemLoanOutstanding int
  | OverdueLock
  | NoQuota
  | OverQuota int int
  | DisburseFailed
  | SystemLoanGranted int rat int int nat
  | OverdueRestriction int
  | NoRestriction

subsection \<open>\<open>_update_coins\<close>\<close>

definition user_repo_get_by_id :: "db \<Rightarrow> string \<Rightarrow> user option" where
  \<comment> \<open>Modelled from the spec: \<open>SqliteUserRepository.get_by_id\<close> (sqlite\_user\_repo.py is
      not among the sources) reads the account's row, \<open>None\<close> when there is none.\<close>
  "user_repo_get_by_id s uid = users s uid"

definition user_repo_update :: "loan_service \<Rightarrow> string \<Rightarrow> user \<Rightarrow> db \<Rightarrow> db option" where
  \<comment> \<open>Modelled from the spec: \<open>SqliteUserRepository.update\<close> (sqlite\_user\_repo.py is
      not among the sources) writes the fields of the user object back to its row and does
      nothing else (the account ledger adjusts a balance and raises the peak balance by
      separate operations); \<open>None\<close> when it raises.\<close>
  "user_repo_update svc uid u s =
     (if user_update_raises svc uid then None
      else Some (s\<lparr>users := (users s)(uid \<mapsto> u)\<rparr>))"

definition update_coins :: "loan_service \<Rightarrow> string \<Rightarrow> int \<Rightarrow> db \<Rightarrow> bool \<times> db" where
  "update_coins svc uid amount s =
     (case user_repo_get_by_id s uid of
        None \<Rightarrow> (False, s)
      | Some u \<Rightarrow>
          (let c = coins u + amount;
               u' = u\<lparr>coins := (if c < 0 then 0 else c)\<rparr>
           in case user_repo_update svc uid u' s of
                Some s' \<Rightarrow> (True, s')
              | None \<Rightarrow> (False, s)))"

subsection \<open>\<open>create_loan\<close>\<close>

text \<open>
  The result is \<open>None\<close> when the computation of \<open>due_amount\<close>, which stands before the
  \<open>try\<close>, raises. A failing SQL statement inside a \<open>with\<close> block rolls the block back
  and is answered with \<open>False\<close>; the connection is taken to work, so those branches are
  not part of the model.
\<close>

definition create_loan ::
  "loan_service \<Rightarrow> int \<Rightarrow> string \<Rightarrow> string \<Rightarrow> int \<Rightarrow> rat option \<Rightarrow> db
     \<Rightarrow> (bool \<times> message \<times> loan option) option \<times> db" where
  "create_loan svc now lender borrower p rate_arg s =
     (if lender = borrower then (Some (False, SelfLoan, None), s)
      else if p \<le> 0 then (Some (False, PrincipalNotPositive, None), s)
      else
        let rate = (case rate_arg of None \<Rightarrow> default_interest_rate svc | Some r \<Rightarrow> r)
        in case int_times_one_plus p rate of
             None \<Rightarrow> (None, s)
           | Some due \<Rightarrow>
               let l = \<lparr>loan_id = 0, lender_id = lender, borrower_id = borrower,
                         principal = p, interest_rate = rate, borrowed_at = now,
                         due_amount = due, repaid_amount = 0,
                         status = (if lender \<noteq> SYSTEM then Pending else Active),
                         due_date = None, created_at = None, updated_at = None\<rparr>
               in if lender \<noteq> SYSTEM then
                    (let (i, s') = repo_create_loan now l s
                     in (Some (True, LoanRequested borrower p rate i, Some (l\<lparr>loan_id := i\<rparr>)), s'))
                  else
                    (case users s lender of
                       None \<Rightarrow> (Some (False, LenderAccountMissing, None), s)
                     | Some lu \<Rightarrow>
                         if coins lu < p then (Some (False, LenderCoinsShort (coins lu), None), s)
                         else if users s borrower = None
                           then (Some (False, BorrowerAccountMissing, None), s)
                         else
                           (let s1 = sql_debit lender p s;
                                s2 = sql_credit borrower p s1;
                                s3 = sql_raise_max_coins borrower s2;
                                (i, s4) = sql_insert_loan now l s3
                            in (Some (True, LoanCreated p rate due i, Some (l\<lparr>loan_id := i\<rparr>)), s4))))"

subsection \<open>\<open>confirm_loan\<close>\<close>

definition confirm_loan ::
  "loan_service \<Rightarrow> int \<Rightarrow> nat \<Rightarrow> string \<Rightarrow> db \<Rightarrow> (bool \<times> message) \<times> db" where
  "confirm_loan svc now i uid s =
     (case get_loan_by_id s i of
        None \<Rightarrow> ((False, LoanMissing), s)
      | Some l \<Rightarrow>
          if borrower_id l \<noteq> uid then ((False, NotTheBorrower), s)
          else if status l \<noteq> Pending then ((False, WrongStatus (status l)), s)
          else
            (case users s (lender_id l) of
               None \<Rightarrow> ((False, LenderAccountMissing), s)
             | Some lu \<Rightarrow>
                 if coins lu < principal l then ((False, LenderBroke), s)
                 else
                   (let s1 = sql_debit (lender_id l) (principal l) s;
                        s2 = sql_credit (borrower_id l) (principal l) s1;
                        s3 = sql_raise_max_coins (borrower_id l) s2;
                        s4 = sql_activate_loan now i s3
                    in ((True, LoanConfirmed (principal l)), s4))))"

subsection \<open>\<open>repay_all_loans\<close>\<close>

definition repay_all_key :: "loan \<Rightarrow> nat \<times> rat \<times> int" where
  \<comment> \<open>the \<open>key\<close> of \<open>all_loans.sort\<close>; Python compares the tuples lexicographically\<close>
  "repay_all_key x = (if is_system_loan x then 0 else 1, - interest_rate x, borrowed_at x)"

fun repay_all_walk ::
  "int \<Rightarrow> loan list \<Rightarrow> int \<Rightarrow> int \<Rightarrow> (nat \<times> string \<times> int) list \<Rightarrow> db
     \<Rightarrow> int \<times> int \<times> (nat \<times> string \<times> int) list \<times> db" where
  "repay_all_walk now [] total_repaid remaining_balance details s =
     (total_repaid, remaining_balance, details, s)"
| "repay_all_walk now (l # rest) total_repaid remaining_balance details s =
     (if remaining_balance \<le> 0 then (total_repaid, remaining_balance, details, s)
      else
        let debt = remaining_amount l;
            repay_amount = min remaining_balance debt
        in if repay_amount \<le> 0
           then repay_all_walk now rest total_repaid remaining_balance details s
           else
             let new_repaid = repaid_amount l + repay_amount;
                 new_status = (if due_amount l \<le> new_repaid then Paid else status l);
                 s1 = sql_update_loan now (loan_id l) new_repaid new_status s;
                 s2 = (if \<not> is_system_loan l
                       then sql_raise_max_coins (lender_id l)
                              (sql_credit (lender_id l) repay_amount s1)
                       else s1)
             in repay_all_walk now rest (total_repaid + repay_amount)
                  (remaining_balance - repay_amount)
                  (details @ [(loan_id l, lender_id l, repay_amount)]) s2)"

definition repay_all_candidates :: "db \<Rightarrow> string \<Rightarrow> loan list" where
  \<comment> \<open>\<open>SELECT * FROM loans WHERE borrower_id = ? AND status IN ('active', 'overdue')\<close>\<close>
  "repay_all_candidates s borrower =
     filter (\<lambda>l. borrower_id l = borrower \<and> (status l = Active \<or> status l = Overdue))
       (loans s)"

definition repay_all_loans ::
  "loan_service \<Rightarrow> int \<Rightarrow> string \<Rightarrow> db \<Rightarrow> (bool \<times> message) \<times> db" where
  "repay_all_loans svc now borrower s =
     (case users s borrower of
        None \<Rightarrow> ((False, NoCoins), s)
      | Some u \<Rightarrow>
          if coins u \<le> 0 then ((False, NoCoins), s)
          else
            let rows = repay_all_candidates s borrower
            in if rows = [] then ((True, NoDebt), s)
               else
                 let all_loans = sort_key repay_all_key rows;
                     (total_repaid, remaining_balance, details, s1) =
                        repay_all_walk now all_loans 0 (coins u) [] s;
                     s2 = sql_set_coins borrower remaining_balance s1
                 in ((True, RepaidAll total_repaid remaining_balance details), s2))"

subsection \<open>\<open>repay_loan\<close>\<close>

fun repay_walk ::
  "int \<Rightarrow> loan list \<Rightarrow> int \<Rightarrow> nat list \<Rightarrow> int \<Rightarrow> db \<Rightarrow> int \<times> nat list \<times> db" where
  "repay_walk now [] total_repaid paid_off_loans remaining s =
     (total_repaid, paid_off_loans, s)"
| "repay_walk now (l # rest) total_repaid paid_off_loans remaining s =
     (if remaining \<le> 0 then (total_repaid, paid_off_loans, s)
      else
        let remaining_debt = remaining_amount l;
            repay_this_loan = min remaining remaining_debt;
            new_repaid_amount = repaid_amount l + repay_this_loan;
            new_status = (if due_amount l \<le> new_repaid_amount then Paid else Active);
            s1 = sql_update_loan now (loan_id l) new_repaid_amount new_status s
        in repay_walk now rest (total_repaid + repay_this_loan)
             (if new_status = Paid then paid_off_loans @ [loan_id l] else paid_off_loans)
             (remaining - repay_this_loan) s1)"

definition repay_candidates :: "db \<Rightarrow> string \<Rightarrow> string \<Rightarrow> loan list" where
  \<comment> \<open>\<open>SELECT * FROM loans WHERE borrower_id = ? AND lender_id = ?
      AND status IN ('active', 'overdue') ORDER BY borrowed_at ASC\<close>\<close>
  "repay_candidates s borrower lender =
     sort_key borrowed_at
       (filter (\<lambda>l. borrower_id l = borrower \<and> lender_id l = lender
                     \<and> (status l = Active \<or> status l = Overdue))
          (loans s))"

definition repay_loan ::
  "loan_service \<Rightarrow> int \<Rightarrow> string \<Rightarrow> string \<Rightarrow> int \<Rightarrow> db \<Rightarrow> (bool \<times> message) \<times> db" where
  "repay_loan svc now borrower lender amount s =
     (if amount \<le> 0 then ((False, RepayNotPositive), s)
      else
        case users s borrower of
          None \<Rightarrow> ((False, BorrowerAccountMissing), s)
        | Some u \<Rightarrow>
            if coins u < amount then ((False, CoinsShort (coins u)), s)
            else
              let active_loans =
                    (if lender = SYSTEM then repay_candidates s borrower SYSTEM
                     else repay_candidates s borrower lender)
              in if active_loans = [] then ((False, NoLoanOwed lender), s)
                 else
                   let (total_repaid, paid_off_loans, s1) =
                          repay_walk now active_loans 0 [] amount s;
                       s2 = sql_debit borrower total_repaid s1;
                       s3 = (if lender \<noteq> SYSTEM
                             then sql_raise_max_coins lender (sql_credit lender total_repaid s2)
                             else s2);
                       remaining_loans =
                          (if lender = SYSTEM
                           then (case get_active_system_loan s3 borrower of
                                   None \<Rightarrow> [] | Some l \<Rightarrow> [l])
                           else get_active_loans_between_users s3 lender borrower)
                   in ((True, Repaid total_repaid paid_off_loans
                               (if remaining_loans \<noteq> []
                                then Some (sum_list (map remaining_amount remaining_loans))
                                else None)), s3))"

subsection \<open>\<open>force_collect\<close>\<close>

fun collect_walk ::
  "int \<Rightarrow> loan list \<Rightarrow> int \<Rightarrow> nat list \<Rightarrow> int \<Rightarrow> db \<Rightarrow> int \<times> nat list \<times> db" where
  "collect_walk now [] total_collected paid_off_loans remaining s =
     (total_collected, paid_off_loans, s)"
| "collect_walk now (l # rest) total_collected paid_off_loans remaining s =
     (if remaining \<le> 0 then (total_collected, paid_off_loans, s)
      else
        let remaining_debt = remaining_amount l;
            collect_this_loan = min remaining remaining_debt;
            new_repaid_amount = repaid_amount l + collect_this_loan;
            new_status = (if due_amount l \<le> new_repaid_amount then Paid else Active);
            (_, s1) = update_loan_repayment now (loan_id l) new_repaid_amount new_status s
        in collect_walk now rest (total_collected + collect_this_loan)
             (if new_status = Paid then paid_off_loans @ [loan_id l] else paid_off_loans)
             (remaining - collect_this_loan) s1)"

definition force_collect ::
  "loan_service \<Rightarrow> int \<Rightarrow> string \<Rightarrow> string \<Rightarrow> int option \<Rightarrow> db \<Rightarrow> (bool \<times> message) \<times> db" where
  "force_collect svc now lender borrower amount s =
     (let active_loans = get_active_loans_between_users s lender borrower
      in if active_loans = [] then ((False, NothingToCollect), s)
         else
           let total_debt = sum_list (map remaining_amount active_loans)
           in if (case amount of None \<Rightarrow> False | Some a \<Rightarrow> a \<le> 0)
              then ((False, CollectNotPositive), s)
              else
                let collect_amount = (case amount of None \<Rightarrow> total_debt | Some a \<Rightarrow> min a total_debt)
                in case user_repo_get_by_id s borrower of
                     None \<Rightarrow> ((False, BorrowerAccountMissing), s)
                   | Some b \<Rightarrow>
                       let actual_collect = min collect_amount (coins b)
                       in if actual_collect \<le> 0 then ((False, BorrowerHasNoCoins), s)
                          else
                            let sorted_loans = sort_key borrowed_at active_loans;
                                (total_collected, paid_off_loans, s1) =
                                   collect_walk now sorted_loans 0 [] actual_collect s;
                                (success, s2) = update_coins svc borrower (- total_collected) s1
                            in if \<not> success then ((False, DebitFailed), s2)
                               else
                                 let (success', s3) = update_coins svc lender total_collected s2
                                 in if \<not> success' then
                                      (let (_, s4) = update_coins svc borrower total_collected s3
                                       in ((False, CreditFailed), s4))
                                    else
                                      let remaining_loans =
                                            get_active_loans_between_users s3 lender borrower
                                      in ((True, Collected total_collected paid_off_loans
                                                  (if remaining_loans \<noteq> []
                                                   then Some (sum_list (map remaining_amount remaining_loans))
                                                   else None)
                                                  (if actual_collect < collect_amount
                                                   then Some (actual_collect, collect_amount)
                                                   else None)), s3))"

subsection \<open>\<open>borrow_from_system\<close>\<close>

definition borrow_from_system ::
  "loan_service \<Rightarrow> int \<Rightarrow> string \<Rightarrow> int option \<Rightarrow> db
     \<Rightarrow> (bool \<times> message \<times> loan option) option \<times> db" where
  "borrow_from_system svc now borrower amount_arg s =
     (case user_repo_get_by_id s borrower of
        None \<Rightarrow> (Some (False, AccountMissing, None), s)
      | Some b \<Rightarrow>
          (case get_active_system_loan s borrower of
             Some existing \<Rightarrow>
               (Some (False, SystemLoanOutstanding (remaining_amount existing), None), s)
           | None \<Rightarrow>
               if has_overdue_system_loan now s borrower
               then (Some (False, OverdueLock, None), s)
               else
                 (case int_times_float (max_coins b) (system_loan_ratio svc) of
                    None \<Rightarrow> (None, s)
                  | Some max_borrow_amount \<Rightarrow>
                      if max_borrow_amount \<le> 0 then (Some (False, NoQuota, None), s)
                      else if (case amount_arg of None \<Rightarrow> False | Some a \<Rightarrow> a \<le> 0)
                        then (Some (False, PrincipalNotPositive, None), s)
                      else if (case amount_arg of None \<Rightarrow> False | Some a \<Rightarrow> max_borrow_amount < a)
                        then (Some (False, OverQuota max_borrow_amount (max_coins b), None), s)
                      else
                        let amount = (case amount_arg of None \<Rightarrow> max_borrow_amount | Some a \<Rightarrow> a)
                        in case int_times_one_plus amount (default_interest_rate svc) of
                             None \<Rightarrow> (None, s)
                           | Some due \<Rightarrow>
                               let due_at = now + system_loan_days svc * usec_per_day;
                                   l = \<lparr>loan_id = 0, lender_id = SYSTEM, borrower_id = borrower,
                                         principal = amount,
                                         interest_rate = default_interest_rate svc,
                                         borrowed_at = now, due_amount = due, repaid_amount = 0,
                                         status = Active, due_date = Some due_at,
                                         created_at = None, updated_at = None\<rparr>;
                                   (success, s1) = update_coins svc borrower amount s
                               in if \<not> success then (Some (False, DisburseFailed, None), s1)
                                  else
                                    let (i, s2) = repo_create_loan now l s1
                                    in (Some (True,
                                              SystemLoanGranted amount (default_interest_rate svc)
                                                due due_at i,
                                              Some (l\<lparr>loan_id := i\<rparr>)), s2))))"

subsection \<open>Read paths that persist the overdue status\<close>

fun overdue_walk :: "int \<Rightarrow> loan list \<Rightarrow> loan list \<Rightarrow> db \<Rightarrow> loan list \<times> db" where
  "overdue_walk now [] overdue_loans s = (overdue_loans, s)"
| "overdue_walk now (l # rest) overdue_loans s =
     (if is_overdue now l then
        (if status l = Active then
           (let (_, s1) = update_loan_repayment now (loan_id l) (repaid_amount l) Overdue s
            in overdue_walk now rest (overdue_loans @ [l\<lparr>status := Overdue\<rparr>]) s1)
         else overdue_walk now rest (overdue_loans @ [l]) s)
      else overdue_walk now rest overdue_loans s)"

definition check_user_overdue_status ::
  "loan_service \<Rightarrow> int \<Rightarrow> string \<Rightarrow> db \<Rightarrow> (bool \<times> message) \<times> db" where
  "check_user_overdue_status svc now uid s =
     (let all_loans = get_loans_by_borrower s uid None;
          system_loans =
            filter (\<lambda>l. is_system_loan l \<and> (status l = Active \<or> status l = Overdue)) all_loans;
          (overdue_loans, s1) = overdue_walk now system_loans [] s
      in if overdue_loans \<noteq> []
         then ((True, OverdueRestriction (sum_list (map remaining_amount overdue_loans))), s1)
         else ((False, NoRestriction), s1))"

fun mark_overdue :: "int \<Rightarrow> loan list \<Rightarrow> db \<Rightarrow> db" where
  "mark_overdue now [] s = s"
| "mark_overdue now (l # rest) s =
     (if is_overdue now l \<and> status l = Active
      then (let (_, s1) = update_loan_repayment now (loan_id l) (repaid_amount l) Overdue s
            in mark_overdue now rest s1)
      else mark_overdue now rest s)"

definition get_total_debt :: "loan_service \<Rightarrow> int \<Rightarrow> string \<Rightarrow> db \<Rightarrow> int \<times> db" where
  "get_total_debt svc now uid s =
     (let borrowed_loans = get_loans_by_borrower s uid (Some Active);
          s1 = mark_overdue now borrowed_loans s;
          all_borrowed = get_loans_by_borrower s1 uid None;
          active_borrowed = filter (\<lambda>l. status l = Active \<or> status l = Overdue) all_borrowed
      in (sum_list (map remaining_amount active_borrowed), s1))"

fun unique_loans :: "loan list \<Rightarrow> nat list \<Rightarrow> loan list" where
  "unique_loans [] seen = []"
| "unique_loans (l # rest) seen =
     (if loan_id l \<notin> set seen then l # unique_loans rest (loan_id l # seen)
      else unique_loans rest seen)"

fun refresh_listed :: "int \<Rightarrow> loan list \<Rightarrow> db \<Rightarrow> loan list \<times> db" where
  "refresh_listed now [] s = ([], s)"
| "refresh_listed now (l # rest) s =
     (if is_overdue now l \<and> status l = Active
      then (let (_, s1) = update_loan_repayment now (loan_id l) (repaid_amount l) Overdue s;
                (shown, s2) = refresh_listed now rest s1
            in (l\<lparr>status := Overdue\<rparr> # shown, s2))
      else (let (shown, s2) = refresh_listed now rest s in (l # shown, s2)))"

definition get_all_loans_list ::
  "loan_service \<Rightarrow> int \<Rightarrow> string option \<Rightarrow> db \<Rightarrow> loan list \<times> db" where
  \<comment> \<open>the result is the list of the loans that the reply shows (at most 20), with the
      status it shows for each\<close>
  "get_all_loans_list svc now uid s =
     (let listed =
            (if (case uid of None \<Rightarrow> False | Some u \<Rightarrow> u \<noteq> [])
             then sort_desc borrowed_at
                    (unique_loans (get_loans_by_lender s (the uid) (Some Active)
                                     @ get_loans_by_borrower s (the uid) (Some Active)) [])
             else get_all_active_loans s)
      in if listed = [] then ([], s) else refresh_listed now (take 20 listed) s)"

subsection \<open>The operations of the service as one step function\<close>

datatype operation =
    CreateLoan string string int "rat option"
  | ConfirmLoan nat string
  | RepayAllLoans string
  | RepayLoan string string int
  | ForceCollect string string "int option"
  | BorrowFromSystem string "int option"
  | CheckUserOverdueStatus string
  | GetTotalDebt string
  | GetAllLoansList "string option"

fun run :: "loan_service \<Rightarrow> int \<Rightarrow> operation \<Rightarrow> db \<Rightarrow> db" where
  "run svc now (CreateLoan lender borrower p r) s = snd (create_loan svc now lender borrower p r s)"
| "run svc now (ConfirmLoan i uid) s = snd (confirm_loan svc now i uid s)"
| "run svc now (RepayAllLoans borrower) s = snd (repay_all_loans svc now borrower s)"
| "run svc now (RepayLoan borrower lender a) s = snd (repay_loan svc now borrower lender a s)"
| "run svc now (ForceCollect lender borrower a) s = snd (force_collect svc now lender borrower a s)"
| "run svc now (BorrowFromSystem borrower a) s = snd (borrow_from_system svc now borrower a s)"
| "run svc now (CheckUserOverdueStatus uid) s = snd (check_user_overdue_status svc now uid s)"
| "run svc now (GetTotalDebt uid) s = snd (get_total_debt svc now uid s)"
| "run svc now (GetAllLoansList uid) s = snd (get_all_loans_list svc now uid s)"

section \<open>Example data\<close>

definition default_service :: loan_service where
  \<comment> \<open>the defaults of \<open>LoanService.__init__\<close>: the floats 0.05 and 0.10, 7 days\<close>
  "default_service =
     \<lparr>default_interest_rate = 3602879701896397 / 72057594037927936,
      system_loan_ratio = 3602879701896397 / 36028797018963968,
      system_loan_days = 7,
      user_update_raises = (\<lambda>_. False)\<rparr>"

definition bob_only :: db where
  "bob_only = \<lparr>users = [''bob'' \<mapsto> \<lparr>coins = 100, max_coins = 100\<rparr>], loans = []\<rparr>"

definition pending_state :: db where
  \<comment> \<open>alice has offered bob 50 coins at the default rate; bob has not confirmed yet\<close>
  "pending_state =
     \<lparr>users = [''alice'' \<mapsto> \<lparr>coins = 500, max_coins = 500\<rparr>,
               ''bob'' \<mapsto> \<lparr>coins = 100, max_coins = 120\<rparr>],
      loans = [\<lparr>loan_id = 1, lender_id = ''alice'', borrower_id = ''bob'', principal = 50,
                interest_rate = 3602879701896397 / 72057594037927936, borrowed_at = 3,
                due_amount = 52, repaid_amount = 0, status = Pending, due_date = None,
                created_at = Some 3, updated_at = Some 3\<rparr>]\<rparr>"

definition system_account_state :: db where
  \<comment> \<open>a store in which the lender id \<open>SYSTEM\<close> has an account row of its own\<close>
  "system_account_state =
     \<lparr>users = [SYSTEM \<mapsto> \<lparr>coins = 1000, max_coins = 1000\<rparr>,
               ''bob'' \<mapsto> \<lparr>coins = 100, max_coins = 100\<rparr>],
      loans = []\<rparr>"

section \<open>How an operation may change the rows of a table\<close>

text \<open>
  \<open>row_evolves\<close> relates a row before an operation to the same row after it: the
  terms of the loan are the same, \<open>repaid_amount\<close> has not decreased and has stayed
  within \<open>due_amount\<close> if it was, the status has not moved back to an earlier stage
  (pending, then active or overdue, then paid), and a row that is now overdue was overdue
  already or is a system loan past its due date. \<open>table_evolves\<close> says this of every
  row of the table, in place, and allows new rows at the end.
\<close>

fun status_rank :: "loan_status \<Rightarrow> nat" where
  "status_rank Pending = 0"
| "status_rank Active = 1"
| "status_rank Overdue = 1"
| "status_rank Paid = 2"

definition row_evolves :: "int \<Rightarrow> loan \<Rightarrow> loan \<Rightarrow> bool" where
  "row_evolves now l l' =
     (loan_id l' = loan_id l \<and> lender_id l' = lender_id l \<and> borrower_id l' = borrower_id l
      \<and> principal l' = principal l \<and> interest_rate l' = interest_rate l
      \<and> due_amount l' = due_amount l \<and> due_date l' = due_date l
      \<and> repaid_amount l \<le> repaid_amount l'
      \<and> (repaid_amount l \<le> due_amount l \<longrightarrow> repaid_amount l' \<le> due_amount l')
      \<and> status_rank (status l) \<le> status_rank (status l')
      \<and> (status l' = Overdue \<longrightarrow> status l = Overdue \<or> is_overdue now l))"

definition table_evolves :: "int \<Rightarrow> loan list \<Rightarrow> loan list \<Rightarrow> bool" where
  "table_evolves now t t' =
     (length t \<le> length t' \<and> list_all2 (row_evolves now) t (take (length t) t'))"

definition snapshot_of :: "loan list \<Rightarrow> db \<Rightarrow> bool" where
  \<comment> \<open>\<open>cs\<close> are rows fetched from the table of \<open>s\<close>, each at most once, and the
      primary key is unique\<close>
  "snapshot_of cs s =
     (distinct (map loan_id (loans s)) \<and> distinct (map loan_id cs) \<and> set cs \<subseteq> set (loans s))"

section \<open>Verified properties\<close>

subsection \<open>Repayment without candidate loans\<close>

text \<open>
  C5 (as the code has it). When the borrower has no active or overdue loan at all,
  \<open>repay_all_loans\<close> changes nothing and answers success ("no debt") if the borrower
  holds coins, and failure ("no coins") otherwise. When there is no active or overdue
  loan between the borrower and the chosen lender, \<open>repay_loan\<close> changes nothing and
  answers failure; once the amount is positive and covered by the balance, the failure
  is "you have no loan owed to this lender".
\<close>

theorem repayment_without_candidates:
  "(repay_all_candidates s b = [] \<longrightarrow>
      repay_all_loans svc now b s =
        ((if (\<exists>u. users s b = Some u \<and> 0 < coins u) then (True, NoDebt) else (False, NoCoins)), s))
   \<and> (repay_candidates s b l = [] \<longrightarrow>
        \<not> fst (fst (repay_loan svc now b l a s)) \<and> snd (repay_loan svc now b l a s) = s \<and>
        (0 < a \<and> (\<exists>u. users s b = Some u \<and> a \<le> coins u) \<longrightarrow>
           fst (repay_loan svc now b l a s) = (False, NoLoanOwed l)))"
  by (auto simp: repay_all_loans_def repay_loan_def split: option.splits)

theorem repayment_without_candidates_witness:
  "repay_all_candidates bob_only ''bob'' = [] \<and>
   repay_candidates bob_only ''bob'' ''alice'' = [] \<and>
   repay_all_loans default_service 0 ''bob'' bob_only = ((True, NoDebt), bob_only) \<and>
   repay_loan default_service 0 ''bob'' ''alice'' 10 bob_only = ((False, NoLoanOwed ''alice''), bob_only)"
  using repayment_without_candidates [of bob_only "''bob''" default_service 0 "''alice''" 10]
  by (simp add: repay_all_candidates_def repay_candidates_def bob_only_def prod_eq_iff)

text \<open>
  The claim as stated asks for success in both calls; \<open>repay_loan\<close> answers failure.
\<close>

theorem repay_loan_no_candidates_counterexample:
  "repay_candidates bob_only ''bob'' ''alice'' = [] \<and>
   fst (fst (repay_loan default_service 0 ''bob'' ''alice'' 10 bob_only)) = False"
  by (simp add: repay_loan_def repay_candidates_def bob_only_def SYSTEM_def)

subsection \<open>Evaluations of the float expressions used in the examples\<close>

lemma default_due_40: "int_times_one_plus 40 (3602879701896397 / 72057594037927936) = Some 42"
  by code_simp

lemma default_due_10: "int_times_one_plus 10 (3602879701896397 / 72057594037927936) = Some 10"
  by code_simp

lemma default_quota_100: "int_times_float 100 (3602879701896397 / 36028797018963968) = Some 10"
  by code_simp

subsection \<open>The peak balance when principal is paid out\<close>

lemma confirm_loan_max_coins:
  assumes "confirm_loan svc now i uid s = ((True, m), s')"
  shows "\<exists>l. get_loan_by_id s i = Some l \<and> borrower_id l = uid \<and>
           (\<forall>u. users s uid = Some u \<longrightarrow>
              (\<exists>u'. users s' uid = Some u' \<and> max_coins u' = max (max_coins u) (coins u') \<and>
                    (lender_id l \<noteq> uid \<longrightarrow> coins u' = coins u + principal l)))"
  using assms
  by (auto simp: confirm_loan_def sql_debit_def sql_credit_def sql_raise_max_coins_def
        sql_activate_loan_def Let_def split: option.splits if_splits)

lemma create_loan_direct_max_coins:
  assumes "create_loan svc now SYSTEM b p r s = (Some (True, m, lo), s')"
  shows "\<exists>u u'. users s b = Some u \<and> users s' b = Some u' \<and> coins u' = coins u + p \<and>
           max_coins u' = max (max_coins u) (coins u')"
  using assms
  by (auto simp: create_loan_def sql_debit_def sql_credit_def sql_raise_max_coins_def
        sql_insert_loan_def Let_def split: option.splits if_splits prod.splits)

lemma borrow_from_system_max_coins:
  assumes "borrow_from_system svc now b a s = (Some (True, m, Some l), s')"
  shows "\<exists>u u'. users s b = Some u \<and> users s' b = Some u' \<and>
           coins u' = max 0 (coins u + principal l) \<and> max_coins u' = max_coins u"
  using assms
  by (auto simp: borrow_from_system_def update_coins_def user_repo_get_by_id_def
        user_repo_update_def repo_create_loan_def sql_insert_loan_def Let_def
        split: option.splits if_splits prod.splits)

text \<open>
  C10. When \<open>confirm_loan\<close> succeeds, the confirming borrower's \<open>max_coins\<close> afterwards
  is the larger of the old \<open>max_coins\<close> and the new balance (the old balance plus the
  principal); the same holds for the borrower when the direct-transfer branch of
  \<open>create_loan\<close> succeeds (the branch is taken for the lender id \<open>SYSTEM\<close>). When
  \<open>borrow_from_system\<close> succeeds, the borrower's balance grows by the principal and
  \<open>max_coins\<close> is what it was, also when the new balance is above it.
\<close>

theorem max_coins_on_disbursement:
  "(confirm_loan svc now i uid s = ((True, m), sa) \<longrightarrow>
      (\<exists>l. get_loan_by_id s i = Some l \<and> borrower_id l = uid \<and>
         (\<forall>u. users s uid = Some u \<longrightarrow>
            (\<exists>u'. users sa uid = Some u' \<and> max_coins u' = max (max_coins u) (coins u') \<and>
                  (lender_id l \<noteq> uid \<longrightarrow> coins u' = coins u + principal l)))))
   \<and> (create_loan svc now SYSTEM b p r s = (Some (True, mb, lo), sb) \<longrightarrow>
        (\<exists>u u'. users s b = Some u \<and> users sb b = Some u' \<and> coins u' = coins u + p \<and>
           max_coins u' = max (max_coins u) (coins u')))
   \<and> (borrow_from_system svc now b a s = (Some (True, mc, Some lc), sc) \<longrightarrow>
        (\<exists>u u'. users s b = Some u \<and> users sc b = Some u' \<and>
           coins u' = max 0 (coins u + principal lc) \<and> max_coins u' = max_coins u))"
proof (intro conjI impI)
  assume "confirm_loan svc now i uid s = ((True, m), sa)"
  then show "\<exists>l. get_loan_by_id s i = Some l \<and> borrower_id l = uid \<and>
         (\<forall>u. users s uid = Some u \<longrightarrow>
            (\<exists>u'. users sa uid = Some u' \<and> max_coins u' = max (max_coins u) (coins u') \<and>
                  (lender_id l \<noteq> uid \<longrightarrow> coins u' = coins u + principal l)))"
    by (rule confirm_loan_max_coins)
next
  assume "create_loan svc now SYSTEM b p r s = (Some (True, mb, lo), sb)"
  then show "\<exists>u u'. users s b = Some u \<and> users sb b = Some u' \<and> coins u' = coins u + p \<and>
           max_coins u' = max (max_coins u) (coins u')"
    by (rule create_loan_direct_max_coins)
next
  assume "borrow_from_system svc now b a s = (Some (True, mc, Some lc), sc)"
  then show "\<exists>u u'. users s b = Some u \<and> users sc b = Some u' \<and>
           coins u' = max 0 (coins u + principal lc) \<and> max_coins u' = max_coins u"
    by (rule borrow_from_system_max_coins)
qed

theorem max_coins_on_disbursement_witness:
  "fst (confirm_loan default_service 5 1 ''bob'' pending_state) = (True, LoanConfirmed 50) \<and>
   users pending_state ''bob'' = Some \<lparr>coins = 100, max_coins = 120\<rparr> \<and>
   users (snd (confirm_loan default_service 5 1 ''bob'' pending_state)) ''bob''
     = Some \<lparr>coins = 150, max_coins = 150\<rparr> \<and>
   fst (the (fst (create_loan default_service 5 SYSTEM ''bob'' 40 None system_account_state))) \<and>
   users (snd (create_loan default_service 5 SYSTEM ''bob'' 40 None system_account_state)) ''bob''
     = Some \<lparr>coins = 140, max_coins = 140\<rparr> \<and>
   fst (the (fst (borrow_from_system default_service 5 ''bob'' None bob_only))) \<and>
   users bob_only ''bob'' = Some \<lparr>coins = 100, max_coins = 100\<rparr> \<and>
   users (snd (borrow_from_system default_service 5 ''bob'' None bob_only)) ''bob''
     = Some \<lparr>coins = 110, max_coins = 100\<rparr>"
proof -
  let ?c = "confirm_loan default_service 5 1 ''bob'' pending_state"
  let ?d = "create_loan default_service 5 SYSTEM ''bob'' 40 None system_account_state"
  let ?e = "borrow_from_system default_service 5 ''bob'' None bob_only"
  have c: "fst ?c = (True, LoanConfirmed 50)"
    and c': "users (snd ?c) ''bob'' = Some \<lparr>coins = 150, max_coins = 150\<rparr>"
    by (simp_all add: confirm_loan_def pending_state_def get_loan_by_id_def sql_debit_def
          sql_credit_def sql_raise_max_coins_def sql_activate_loan_def Let_def)
  have d: "fst (the (fst ?d))"
    and d': "users (snd ?d) ''bob'' = Some \<lparr>coins = 140, max_coins = 140\<rparr>"
    by (simp_all add: create_loan_def system_account_state_def default_service_def
          default_due_40 SYSTEM_def sql_debit_def sql_credit_def sql_raise_max_coins_def
          sql_insert_loan_def next_loan_id_def Let_def)
  have e: "fst (the (fst ?e))"
    and e': "users (snd ?e) ''bob'' = Some \<lparr>coins = 110, max_coins = 100\<rparr>"
    by (simp_all add: borrow_from_system_def bob_only_def default_service_def default_due_10
          default_quota_100 update_coins_def user_repo_get_by_id_def user_repo_update_def
          repo_create_loan_def sql_insert_loan_def next_loan_id_def get_active_system_loan_def
          has_overdue_system_loan_def sort_desc_def usec_per_day_def Let_def)
  have "users pending_state ''bob'' = Some \<lparr>coins = 100, max_coins = 120\<rparr>"
    and "users bob_only ''bob'' = Some \<lparr>coins = 100, max_coins = 100\<rparr>"
    by (simp_all add: pending_state_def bob_only_def)
  with c c' d d' e e'
    max_coins_on_disbursement [where svc = default_service and now = 5 and i = 1
      and uid = "''bob''" and s = pending_state and m = "LoanConfirmed 50" and sa = "snd ?c"]
  show ?thesis by simp
qed

subsection \<open>Rows under updates\<close>

lemma row_evolves_refl: "row_evolves now l l"
  by (simp add: row_evolves_def)

lemma row_evolves_trans:
  assumes "row_evolves now a b" "row_evolves now b c"
  shows "row_evolves now a c"
proof -
  have "status c = Overdue \<Longrightarrow> status a = Overdue \<or> is_overdue now a"
  proof -
    assume c: "status c = Overdue"
    with assms(2) have "status b = Overdue \<or> is_overdue now b" by (simp add: row_evolves_def)
    then show ?thesis
    proof
      assume "status b = Overdue"
      with assms(1) show ?thesis by (simp add: row_evolves_def)
    next
      assume ob: "is_overdue now b"
      then have "status b \<noteq> Paid" by (auto simp: is_overdue_def split: if_splits option.splits)
      then have "status_rank (status b) \<le> 1" by (cases "status b") auto
      with assms(1) have "status_rank (status a) \<le> 1" by (simp add: row_evolves_def)
      then have "status a \<noteq> Paid" by (cases "status a") auto
      with ob assms(1) have "is_overdue now a"
        by (auto simp: is_overdue_def row_evolves_def split: if_splits option.splits)
      then show ?thesis ..
    qed
  qed
  with assms show ?thesis by (auto simp: row_evolves_def)
qed

lemma rows_refl: "list_all2 (row_evolves now) t t"
  by (simp add: list_all2_same row_evolves_refl)

lemma rows_trans:
  "list_all2 (row_evolves now) t u \<Longrightarrow> list_all2 (row_evolves now) u v
     \<Longrightarrow> list_all2 (row_evolves now) t v"
  using list_all2_trans [of "row_evolves now" "row_evolves now" "row_evolves now" t u v]
    row_evolves_trans by blast

lemma rows_same_ids: "list_all2 (row_evolves now) t u \<Longrightarrow> map loan_id u = map loan_id t"
  by (induction rule: list_all2_induct) (auto simp: row_evolves_def)

lemma update_row_rel:
  assumes "distinct (map loan_id t)" "l \<in> set t" "row_evolves now l (g l)"
  shows "list_all2 (row_evolves now) t (map (\<lambda>x. if loan_id x = loan_id l then g x else x) t)"
proof -
  have "\<And>x. x \<in> set t \<Longrightarrow> loan_id x = loan_id l \<Longrightarrow> x = l"
    using assms(1,2) by (meson distinct_map inj_onD)
  with assms(3) show ?thesis
    by (auto simp: list_all2_map2 list_all2_same row_evolves_refl)
qed

lemma update_row_keeps:
  assumes "x \<in> set t" "loan_id x \<noteq> i"
  shows "x \<in> set (map (\<lambda>y. if loan_id y = i then g y else y) t)"
  using assms by (force simp: image_iff)

lemma update_row_ids: "map loan_id (map (\<lambda>y. if loan_id y = i then g y else y) t) = map loan_id t"
  if "\<And>y. loan_id (g y) = loan_id y"
  using that by (induction t) auto

lemma sql_update_loan_users [simp]: "users (sql_update_loan now i r st s) = users s"
  by (simp add: sql_update_loan_def)

lemma sql_update_loan_ids [simp]:
  "map loan_id (loans (sql_update_loan now i r st s)) = map loan_id (loans s)"
  by (simp add: sql_update_loan_def update_row_ids)

lemma sql_update_loan_rows:
  assumes "distinct (map loan_id (loans s))" "l \<in> set (loans s)"
    "row_evolves now l (l\<lparr>repaid_amount := r, status := st, updated_at := Some now\<rparr>)"
  shows "list_all2 (row_evolves now) (loans s) (loans (sql_update_loan now (loan_id l) r st s))"
  using update_row_rel [OF assms(1,2),
      of now "\<lambda>x. x\<lparr>repaid_amount := r, status := st, updated_at := Some now\<rparr>"] assms(3)
  by (simp add: sql_update_loan_def)

lemma snapshot_tail: "snapshot_of (l # rest) s \<Longrightarrow> snapshot_of rest s"
  by (simp add: snapshot_of_def)

lemma snapshot_head: "snapshot_of (l # rest) s \<Longrightarrow> l \<in> set (loans s) \<and> distinct (map loan_id (loans s))"
  by (simp add: snapshot_of_def)

lemma snapshot_step:
  assumes "snapshot_of (l # rest) s"
  shows "snapshot_of rest (sql_update_loan now (loan_id l) r st s)"
proof -
  have "x \<in> set (loans (sql_update_loan now (loan_id l) r st s))" if "x \<in> set rest" for x
  proof -
    from that assms have "x \<in> set (loans s)" "loan_id x \<noteq> loan_id l"
      by (auto simp: snapshot_of_def image_iff)
    then show ?thesis unfolding sql_update_loan_def
      by (simp del: set_map add: update_row_keeps)
  qed
  with assms show ?thesis by (auto simp: snapshot_of_def)
qed

lemma pay_row_evolves:
  assumes "0 \<le> a" "a \<le> remaining_amount l" "status_rank (status l) \<le> status_rank st"
    "st = Overdue \<longrightarrow> status l = Overdue"
  shows "row_evolves now l (l\<lparr>repaid_amount := repaid_amount l + a, status := st, updated_at := Some now\<rparr>)"
  using assms by (auto simp: row_evolves_def remaining_amount_def)

lemma mark_row_evolves:
  assumes "is_overdue now l"
  shows "row_evolves now l (l\<lparr>repaid_amount := repaid_amount l, status := Overdue, updated_at := Some now\<rparr>)"
proof -
  from assms have "status l \<noteq> Paid" by (auto simp: is_overdue_def split: if_splits option.splits)
  then have "status_rank (status l) \<le> 1" by (cases "status l") auto
  with assms show ?thesis by (simp add: row_evolves_def)
qed

lemma repay_walk_rows:
  assumes "snapshot_of cs s" "\<forall>l\<in>set cs. status l = Active \<or> status l = Overdue"
  shows "list_all2 (row_evolves now) (loans s) (loans (snd (snd (repay_walk now cs tot po rem s))))
         \<and> users (snd (snd (repay_walk now cs tot po rem s))) = users s"
  using assms
proof (induction cs arbitrary: tot po rem s)
  case Nil
  then show ?case by (simp add: rows_refl)
next
  case (Cons l rest)
  show ?case
  proof (cases "rem \<le> 0")
    case True
    then show ?thesis by (simp add: rows_refl)
  next
    case False
    define a where "a = min rem (remaining_amount l)"
    define st where "st = (if due_amount l \<le> repaid_amount l + a then Paid else Active)"
    define s1 where "s1 = sql_update_loan now (loan_id l) (repaid_amount l + a) st s"
    have a: "0 \<le> a" "a \<le> remaining_amount l"
      using False by (auto simp: a_def remaining_amount_def)
    have "status l = Active \<or> status l = Overdue" using Cons.prems(2) by simp
    then have "status_rank (status l) \<le> status_rank st" "st = Overdue \<longrightarrow> status l = Overdue"
      by (auto simp: st_def)
    with a have "row_evolves now l (l\<lparr>repaid_amount := repaid_amount l + a, status := st, updated_at := Some now\<rparr>)"
      by (intro pay_row_evolves)
    with snapshot_head [OF Cons.prems(1)]
    have step: "list_all2 (row_evolves now) (loans s) (loans s1)"
      unfolding s1_def by (intro sql_update_loan_rows) auto
    have snap: "snapshot_of rest s1"
      unfolding s1_def using Cons.prems(1) by (rule snapshot_step)
    have rest: "\<forall>l\<in>set rest. status l = Active \<or> status l = Overdue"
      using Cons.prems(2) by simp
    note IH = Cons.IH [OF snap rest]
    have eq: "repay_walk now (l # rest) tot po rem s =
          repay_walk now rest (tot + a) (if st = Paid then po @ [loan_id l] else po) (rem - a) s1"
      using False by (simp add: Let_def a_def st_def s1_def)
    show ?thesis
      unfolding eq using IH step rows_trans by (auto simp: s1_def)
  qed
qed

lemma update_loan_repayment_snd [simp]:
  "snd (update_loan_repayment now i r st s) = sql_update_loan now i r st s"
  by (simp add: update_loan_repayment_def)

lemma collect_walk_rows:
  assumes "snapshot_of cs s" "\<forall>l\<in>set cs. status l = Active \<or> status l = Overdue"
  shows "list_all2 (row_evolves now) (loans s) (loans (snd (snd (collect_walk now cs tot po rem s))))
         \<and> users (snd (snd (collect_walk now cs tot po rem s))) = users s"
  using assms
proof (induction cs arbitrary: tot po rem s)
  case Nil
  then show ?case by (simp add: rows_refl)
next
  case (Cons l rest)
  show ?case
  proof (cases "rem \<le> 0")
    case True
    then show ?thesis by (simp add: rows_refl)
  next
    case False
    define a where "a = min rem (remaining_amount l)"
    define st where "st = (if due_amount l \<le> repaid_amount l + a then Paid else Active)"
    define s1 where "s1 = sql_update_loan now (loan_id l) (repaid_amount l + a) st s"
    have a: "0 \<le> a" "a \<le> remaining_amount l"
      using False by (auto simp: a_def remaining_amount_def)
    have "status l = Active \<or> status l = Overdue" using Cons.prems(2) by simp
    then have "status_rank (status l) \<le> status_rank st" "st = Overdue \<longrightarrow> status l = Overdue"
      by (auto simp: st_def)
    with a have "row_evolves now l (l\<lparr>repaid_amount := repaid_amount l + a, status := st, updated_at := Some now\<rparr>)"
      by (intro pay_row_evolves)
    with snapshot_head [OF Cons.prems(1)]
    have step: "list_all2 (row_evolves now) (loans s) (loans s1)"
      unfolding s1_def by (intro sql_update_loan_rows) auto
    have snap: "snapshot_of rest s1"
      unfolding s1_def using Cons.prems(1) by (rule snapshot_step)
    have rest: "\<forall>l\<in>set rest. status l = Active \<or> status l = Overdue"
      using Cons.prems(2) by simp
    note IH = Cons.IH [OF snap rest]
    have eq: "collect_walk now (l # rest) tot po rem s =
          collect_walk now rest (tot + a) (if st = Paid then po @ [loan_id l] else po) (rem - a) s1"
      using False by (simp add: Let_def a_def st_def s1_def split_beta)
    show ?thesis
      unfolding eq using IH step rows_trans by (auto simp: s1_def)
  qed
qed

lemma sql_credit_loans [simp]: "loans (sql_credit uid a s) = loans s"
  by (simp add: sql_credit_def split: option.splits)

lemma sql_debit_loans [simp]: "loans (sql_debit uid a s) = loans s"
  by (simp add: sql_debit_def split: option.splits)

lemma sql_set_coins_loans [simp]: "loans (sql_set_coins uid a s) = loans s"
  by (simp add: sql_set_coins_def split: option.splits)

lemma sql_raise_max_coins_loans [simp]: "loans (sql_raise_max_coins uid s) = loans s"
  by (simp add: sql_raise_max_coins_def split: option.splits)

lemma snapshot_of_same_loans: "loans s' = loans s \<Longrightarrow> snapshot_of cs s' = snapshot_of cs s"
  by (simp add: snapshot_of_def)

lemma repay_all_walk_step:
  assumes "\<not> rem \<le> 0"
  shows "repay_all_walk now (l # rest) tot rem det s =
     (if min rem (remaining_amount l) \<le> 0 then repay_all_walk now rest tot rem det s
      else repay_all_walk now rest (tot + min rem (remaining_amount l))
             (rem - min rem (remaining_amount l))
             (det @ [(loan_id l, lender_id l, min rem (remaining_amount l))])
             (if \<not> is_system_loan l
              then sql_raise_max_coins (lender_id l)
                     (sql_credit (lender_id l) (min rem (remaining_amount l))
                        (sql_update_loan now (loan_id l)
                           (repaid_amount l + min rem (remaining_amount l))
                           (if due_amount l \<le> repaid_amount l + min rem (remaining_amount l)
                            then Paid else status l) s))
              else sql_update_loan now (loan_id l)
                     (repaid_amount l + min rem (remaining_amount l))
                     (if due_amount l \<le> repaid_amount l + min rem (remaining_amount l)
                      then Paid else status l) s))"
  using assms by (simp only: repay_all_walk.simps Let_def if_False)

lemma repay_all_walk_rows:
  assumes "snapshot_of cs s" "\<forall>l\<in>set cs. status l = Active \<or> status l = Overdue"
  shows "list_all2 (row_evolves now) (loans s)
           (loans (snd (snd (snd (repay_all_walk now cs tot rem det s)))))"
  using assms
proof (induction cs arbitrary: tot rem det s)
  case Nil
  then show ?case by (simp add: rows_refl)
next
  case (Cons l rest)
  have rest: "\<forall>l\<in>set rest. status l = Active \<or> status l = Overdue"
    using Cons.prems(2) by simp
  show ?case
  proof (cases "rem \<le> 0")
    case True
    then show ?thesis by (simp add: rows_refl)
  next
    case False
    define a where "a = min rem (remaining_amount l)"
    show ?thesis
    proof (cases "a \<le> 0")
      case True
      have "repay_all_walk now (l # rest) tot rem det s = repay_all_walk now rest tot rem det s"
        using True unfolding a_def repay_all_walk_step [OF False] by (simp only: if_True)
      with Cons.IH [OF snapshot_tail [OF Cons.prems(1)] rest] show ?thesis by simp
    next
      case apos: False
      define st where "st = (if due_amount l \<le> repaid_amount l + a then Paid else status l)"
      define s1 where "s1 = sql_update_loan now (loan_id l) (repaid_amount l + a) st s"
      define s2 where "s2 = (if \<not> is_system_loan l
                       then sql_raise_max_coins (lender_id l) (sql_credit (lender_id l) a s1)
                       else s1)"
      have a: "0 \<le> a" "a \<le> remaining_amount l"
        using False by (auto simp: a_def remaining_amount_def)
      have "status l = Active \<or> status l = Overdue" using Cons.prems(2) by simp
      then have "status_rank (status l) \<le> status_rank st" "st = Overdue \<longrightarrow> status l = Overdue"
        by (auto simp: st_def)
      with a have "row_evolves now l (l\<lparr>repaid_amount := repaid_amount l + a, status := st, updated_at := Some now\<rparr>)"
        by (intro pay_row_evolves)
      with snapshot_head [OF Cons.prems(1)]
      have "list_all2 (row_evolves now) (loans s) (loans s1)"
        unfolding s1_def by (intro sql_update_loan_rows) auto
      moreover have l2: "loans s2 = loans s1" by (simp add: s2_def)
      ultimately have step: "list_all2 (row_evolves now) (loans s) (loans s2)" by simp
      have "snapshot_of rest s1"
        unfolding s1_def using Cons.prems(1) by (rule snapshot_step)
      with snapshot_of_same_loans [OF l2] have snap: "snapshot_of rest s2" by simp
      note IH = Cons.IH [OF snap rest]
      have eq: "repay_all_walk now (l # rest) tot rem det s =
          repay_all_walk now rest (tot + a) (rem - a) (det @ [(loan_id l, lender_id l, a)]) s2"
        using apos unfolding a_def st_def s1_def s2_def repay_all_walk_step [OF False]
        by (simp only: if_False)
      show ?thesis
        unfolding eq using IH step rows_trans by blast
    qed
  qed
qed

lemma overdue_walk_rows:
  assumes "snapshot_of cs s"
  shows "list_all2 (row_evolves now) (loans s) (loans (snd (overdue_walk now cs acc s)))
         \<and> users (snd (overdue_walk now cs acc s)) = users s"
  using assms
proof (induction cs arbitrary: acc s)
  case Nil
  then show ?case by (simp add: rows_refl)
next
  case (Cons l rest)
  show ?case
  proof (cases "is_overdue now l \<and> status l = Active")
    case True
    define s1 where "s1 = sql_update_loan now (loan_id l) (repaid_amount l) Overdue s"
    have step: "list_all2 (row_evolves now) (loans s) (loans s1)"
      unfolding s1_def using snapshot_head [OF Cons.prems] True
      by (intro sql_update_loan_rows mark_row_evolves) auto
    have snap: "snapshot_of rest s1"
      unfolding s1_def using Cons.prems by (rule snapshot_step)
    have eq: "overdue_walk now (l # rest) acc s = overdue_walk now rest (acc @ [l\<lparr>status := Overdue\<rparr>]) s1"
      using True by (simp add: s1_def split_beta)
    show ?thesis unfolding eq using Cons.IH [OF snap] step rows_trans by (auto simp: s1_def)
  next
    case False
    then have "\<exists>acc'. overdue_walk now (l # rest) acc s = overdue_walk now rest acc' s"
      by auto
    with Cons.IH [OF snapshot_tail [OF Cons.prems]] show ?thesis by auto
  qed
qed

lemma mark_overdue_rows:
  assumes "snapshot_of cs s"
  shows "list_all2 (row_evolves now) (loans s) (loans (mark_overdue now cs s))
         \<and> users (mark_overdue now cs s) = users s"
  using assms
proof (induction cs arbitrary: s)
  case Nil
  then show ?case by (simp add: rows_refl)
next
  case (Cons l rest)
  show ?case
  proof (cases "is_overdue now l \<and> status l = Active")
    case True
    define s1 where "s1 = sql_update_loan now (loan_id l) (repaid_amount l) Overdue s"
    have step: "list_all2 (row_evolves now) (loans s) (loans s1)"
      unfolding s1_def using snapshot_head [OF Cons.prems] True
      by (intro sql_update_loan_rows mark_row_evolves) auto
    have snap: "snapshot_of rest s1"
      unfolding s1_def using Cons.prems by (rule snapshot_step)
    have eq: "mark_overdue now (l # rest) s = mark_overdue now rest s1"
      using True by (simp add: s1_def split_beta)
    show ?thesis unfolding eq using Cons.IH [OF snap] step rows_trans by (auto simp: s1_def)
  next
    case False
    then have "mark_overdue now (l # rest) s = mark_overdue now rest s"
      by auto
    with Cons.IH [OF snapshot_tail [OF Cons.prems]] show ?thesis by auto
  qed
qed

lemma refresh_listed_rows:
  assumes "snapshot_of cs s"
  shows "list_all2 (row_evolves now) (loans s) (loans (snd (refresh_listed now cs s)))
         \<and> users (snd (refresh_listed now cs s)) = users s"
  using assms
proof (induction cs arbitrary: s)
  case Nil
  then show ?case by (simp add: rows_refl)
next
  case (Cons l rest)
  show ?case
  proof (cases "is_overdue now l \<and> status l = Active")
    case True
    define s1 where "s1 = sql_update_loan now (loan_id l) (repaid_amount l) Overdue s"
    have step: "list_all2 (row_evolves now) (loans s) (loans s1)"
      unfolding s1_def using snapshot_head [OF Cons.prems] True
      by (intro sql_update_loan_rows mark_row_evolves) auto
    have snap: "snapshot_of rest s1"
      unfolding s1_def using Cons.prems by (rule snapshot_step)
    have eq: "snd (refresh_listed now (l # rest) s) = snd (refresh_listed now rest s1)"
      using True by (simp add: s1_def split_beta)
    show ?thesis unfolding eq using Cons.IH [OF snap] step rows_trans by (auto simp: s1_def)
  next
    case False
    then have "snd (refresh_listed now (l # rest) s) = snd (refresh_listed now rest s)"
      by (auto simp: split_beta)
    with Cons.IH [OF snapshot_tail [OF Cons.prems]] show ?thesis by auto
  qed
qed

lemma snapshot_all: "distinct (map loan_id (loans s)) \<Longrightarrow> snapshot_of (loans s) s"
  by (simp add: snapshot_of_def)

lemma snapshot_filter: "snapshot_of cs s \<Longrightarrow> snapshot_of (filter P cs) s"
  by (auto simp: snapshot_of_def distinct_map_filter)

lemma snapshot_sort_key: "snapshot_of cs s \<Longrightarrow> snapshot_of (sort_key k cs) s"
  by (auto simp: snapshot_of_def distinct_map)

lemma snapshot_sort_desc: "snapshot_of cs s \<Longrightarrow> snapshot_of (sort_desc k cs) s"
  by (auto simp: snapshot_of_def sort_desc_def distinct_map)

lemma snapshot_take: "snapshot_of cs s \<Longrightarrow> snapshot_of (take n cs) s"
  by (auto simp: snapshot_of_def distinct_map dest: in_set_takeD intro: inj_on_subset [OF _ set_take_subset])

lemma unique_loans_props:
  "set (unique_loans xs seen) \<subseteq> set xs \<and> distinct (map loan_id (unique_loans xs seen))
   \<and> loan_id ` set (unique_loans xs seen) \<inter> set seen = {}"
proof (induction xs arbitrary: seen)
  case Nil
  then show ?case by simp
next
  case (Cons x xs)
  from Cons [of seen] Cons [of "loan_id x # seen"] show ?case by auto
qed

lemma snapshot_unique:
  assumes "distinct (map loan_id (loans s))" "set xs \<subseteq> set (loans s)"
  shows "snapshot_of (unique_loans xs []) s"
  using assms unique_loans_props [of xs "[]"] by (auto simp: snapshot_of_def)

lemma fold_max_ge: "(x::nat) \<in> set xs \<Longrightarrow> x \<le> fold max xs a"
proof (induction xs arbitrary: a)
  case Nil
  then show ?case by simp
next
  case (Cons y ys)
  have "a \<le> fold max ys a" for a :: nat
    by (induction ys arbitrary: a) (auto intro: order_trans [OF max.cobounded2])
  from this [of "max y a"] Cons show ?case by auto
qed

lemma next_loan_id_fresh: "next_loan_id t \<notin> loan_id ` set t"
proof
  assume "next_loan_id t \<in> loan_id ` set t"
  then have "next_loan_id t \<in> set (map loan_id t)" by simp
  from fold_max_ge [OF this, of 0] show False by (simp add: next_loan_id_def)
qed

lemma table_evolves_refl: "table_evolves now t t"
  by (simp add: table_evolves_def rows_refl)

lemma table_evolves_append: "list_all2 (row_evolves now) t u \<Longrightarrow> table_evolves now t (u @ new)"
  using list_all2_lengthD [of "row_evolves now" t u] by (auto simp: table_evolves_def)

lemma table_evolves_rows: "list_all2 (row_evolves now) t u \<Longrightarrow> table_evolves now t u"
  using table_evolves_append [of now t u "[]"] by simp

lemma sql_insert_loan_loans:
  "loans (snd (sql_insert_loan now l s)) =
     loans s @ [l\<lparr>loan_id := next_loan_id (loans s), created_at := Some now, updated_at := Some now\<rparr>]"
  by (simp add: sql_insert_loan_def Let_def)

lemma rows_distinct_ids:
  "list_all2 (row_evolves now) t u \<Longrightarrow> distinct (map loan_id t) \<Longrightarrow> distinct (map loan_id u)"
  by (simp add: rows_same_ids)

lemma update_coins_loans [simp]: "loans (snd (update_coins svc uid a s)) = loans s"
  by (simp add: update_coins_def user_repo_get_by_id_def user_repo_update_def Let_def
        split: option.splits)

lemma get_loan_by_id_Some:
  "get_loan_by_id s i = Some l \<Longrightarrow> l \<in> set (loans s) \<and> loan_id l = i"
  by (auto simp: get_loan_by_id_def find_Some_iff)

lemma sql_activate_loan_rows:
  assumes "distinct (map loan_id (loans s))" "l \<in> set (loans s)" "status l = Pending"
  shows "list_all2 (row_evolves now) (loans s) (loans (sql_activate_loan now (loan_id l) s))"
proof -
  have "row_evolves now l (l\<lparr>status := Active, borrowed_at := now, updated_at := Some now\<rparr>)"
    using assms(3) by (simp add: row_evolves_def)
  from update_row_rel [OF assms(1,2), of now
      "\<lambda>x. x\<lparr>status := Active, borrowed_at := now, updated_at := Some now\<rparr>", OF this]
  show ?thesis by (simp add: sql_activate_loan_def)
qed

lemma confirm_loan_loans:
  "loans (snd (confirm_loan svc now i uid s)) = loans s
   \<or> (\<exists>l. get_loan_by_id s i = Some l \<and> status l = Pending
          \<and> loans (snd (confirm_loan svc now i uid s)) = loans (sql_activate_loan now i s))"
  by (auto simp: confirm_loan_def Let_def sql_activate_loan_def split: option.splits)

lemma confirm_loan_rows:
  assumes "distinct (map loan_id (loans s))"
  shows "list_all2 (row_evolves now) (loans s) (loans (snd (confirm_loan svc now i uid s)))"
  using confirm_loan_loans [of svc now i uid s]
proof (elim disjE exE conjE)
  assume "loans (snd (confirm_loan svc now i uid s)) = loans s"
  then show ?thesis by (simp add: rows_refl)
next
  fix l
  assume l: "get_loan_by_id s i = Some l" "status l = Pending"
    and eq: "loans (snd (confirm_loan svc now i uid s)) = loans (sql_activate_loan now i s)"
  from get_loan_by_id_Some [OF l(1)] sql_activate_loan_rows [OF assms _ l(2), of now]
  show ?thesis unfolding eq by auto
qed

lemma create_loan_rows:
  "loans (snd (create_loan svc now lender borrower p r s)) = loans s
   \<or> (\<exists>row. loans (snd (create_loan svc now lender borrower p r s)) = loans s @ [row]
          \<and> loan_id row = next_loan_id (loans s) \<and> lender_id row = lender
          \<and> ((lender \<noteq> SYSTEM \<and> status row = Pending)
              \<or> (lender = SYSTEM \<and> users s SYSTEM \<noteq> None)))"
  by (auto simp: create_loan_def repo_create_loan_def sql_insert_loan_def Let_def
        split: option.splits)

lemma borrow_from_system_rows:
  "loans (snd (borrow_from_system svc now b a s)) = loans s
   \<or> (\<exists>row. loans (snd (borrow_from_system svc now b a s)) = loans s @ [row]
          \<and> loan_id row = next_loan_id (loans s) \<and> lender_id row = SYSTEM
          \<and> borrower_id row = b \<and> status row = Active
          \<and> get_active_system_loan s b = None \<and> \<not> has_overdue_system_loan now s b)"
  by (auto simp: borrow_from_system_def repo_create_loan_def sql_insert_loan_def Let_def
        update_coins_def user_repo_get_by_id_def user_repo_update_def
        split: option.splits)

lemma repay_candidates_snapshot:
  assumes "distinct (map loan_id (loans s))"
  shows "snapshot_of (repay_candidates s b l) s"
    and "\<forall>x\<in>set (repay_candidates s b l). status x = Active \<or> status x = Overdue"
  unfolding repay_candidates_def
  by (intro snapshot_sort_key snapshot_filter snapshot_all assms) auto

lemma repay_loan_rows:
  assumes "distinct (map loan_id (loans s))"
  shows "list_all2 (row_evolves now) (loans s) (loans (snd (repay_loan svc now b l a s)))"
  using repay_walk_rows [OF repay_candidates_snapshot [OF assms]]
  by (auto simp: repay_loan_def Let_def rows_refl split_beta split: option.splits)

lemma repay_all_candidates_snapshot:
  assumes "distinct (map loan_id (loans s))"
  shows "snapshot_of (sort_key k (repay_all_candidates s b)) s"
    and "\<forall>x\<in>set (sort_key k (repay_all_candidates s b)). status x = Active \<or> status x = Overdue"
  unfolding repay_all_candidates_def
  by (intro snapshot_sort_key snapshot_filter snapshot_all assms) auto

lemma repay_all_loans_rows:
  assumes "distinct (map loan_id (loans s))"
  shows "list_all2 (row_evolves now) (loans s) (loans (snd (repay_all_loans svc now b s)))"
  using repay_all_walk_rows [OF repay_all_candidates_snapshot [OF assms]]
  by (auto simp: repay_all_loans_def Let_def rows_refl split_beta split: option.splits)

lemma collect_candidates_snapshot:
  assumes "distinct (map loan_id (loans s))"
  shows "snapshot_of (sort_key k (get_active_loans_between_users s l b)) s"
    and "\<forall>x\<in>set (sort_key k (get_active_loans_between_users s l b)). status x = Active \<or> status x = Overdue"
  unfolding get_active_loans_between_users_def
  by (intro snapshot_sort_key snapshot_sort_desc snapshot_filter snapshot_all assms)
     (auto simp: sort_desc_def)

lemma force_collect_rows:
  assumes "distinct (map loan_id (loans s))"
  shows "list_all2 (row_evolves now) (loans s) (loans (snd (force_collect svc now l b a s)))"
proof -
  note W = collect_walk_rows [OF collect_candidates_snapshot [OF assms], THEN conjunct1]
  show ?thesis
    unfolding force_collect_def Let_def split_beta
    by (simp add: W rows_refl split: option.splits)
qed

lemma check_user_overdue_status_rows:
  assumes "distinct (map loan_id (loans s))"
  shows "list_all2 (row_evolves now) (loans s) (loans (snd (check_user_overdue_status svc now uid s)))"
proof -
  have "snapshot_of (filter P (get_loans_by_borrower s uid None)) s" for P
    unfolding get_loans_by_borrower_def
    by (simp, intro snapshot_filter snapshot_sort_desc snapshot_all assms)
  from overdue_walk_rows [OF this] show ?thesis
    by (auto simp: check_user_overdue_status_def Let_def split_beta)
qed

lemma get_total_debt_rows:
  assumes "distinct (map loan_id (loans s))"
  shows "list_all2 (row_evolves now) (loans s) (loans (snd (get_total_debt svc now uid s)))"
proof -
  have "snapshot_of (get_loans_by_borrower s uid (Some Active)) s"
    unfolding get_loans_by_borrower_def
    by (simp, intro snapshot_filter snapshot_sort_desc snapshot_all assms)
  from mark_overdue_rows [OF this] show ?thesis
    by (auto simp: get_total_debt_def Let_def split_beta)
qed

lemma get_all_loans_list_rows:
  assumes "distinct (map loan_id (loans s))"
  shows "list_all2 (row_evolves now) (loans s) (loans (snd (get_all_loans_list svc now uid s)))"
proof -
  have A: "snapshot_of (take 20 (get_all_active_loans s)) s"
    unfolding get_all_active_loans_def
    by (intro snapshot_take snapshot_filter snapshot_sort_desc snapshot_all assms)
  have "set (get_loans_by_lender s u (Some Active) @ get_loans_by_borrower s u (Some Active))
          \<subseteq> set (loans s)" for u
    by (auto simp: get_loans_by_lender_def get_loans_by_borrower_def sort_desc_def)
  from snapshot_unique [OF assms this]
  have B: "snapshot_of (take 20 (sort_desc borrowed_at
             (unique_loans (get_loans_by_lender s u (Some Active)
                              @ get_loans_by_borrower s u (Some Active)) []))) s" for u
    by (intro snapshot_take snapshot_sort_desc)
  show ?thesis
    using refresh_listed_rows [OF A] refresh_listed_rows [OF B]
    by (auto simp: get_all_loans_list_def Let_def rows_refl)
qed

lemma run_rows:
  assumes "distinct (map loan_id (loans s))"
  shows "table_evolves now (loans s) (loans (run svc now op s))"
proof (cases op)
  case (CreateLoan lender borrower p r)
  with create_loan_rows [of svc now lender borrower p r s] show ?thesis
    by (auto simp: table_evolves_refl intro: table_evolves_append [OF rows_refl])
next
  case (ConfirmLoan i uid)
  with confirm_loan_rows [OF assms] show ?thesis by (simp add: table_evolves_rows)
next
  case (RepayAllLoans b)
  with repay_all_loans_rows [OF assms] show ?thesis by (simp add: table_evolves_rows)
next
  case (RepayLoan b l a)
  with repay_loan_rows [OF assms] show ?thesis by (simp add: table_evolves_rows)
next
  case (ForceCollect l b a)
  with force_collect_rows [OF assms] show ?thesis by (simp add: table_evolves_rows)
next
  case (BorrowFromSystem b a)
  with borrow_from_system_rows [of svc now b a s] show ?thesis
    by (auto simp: table_evolves_refl intro: table_evolves_append [OF rows_refl])
next
  case (CheckUserOverdueStatus uid)
  with check_user_overdue_status_rows [OF assms] show ?thesis by (simp add: table_evolves_rows)
next
  case (GetTotalDebt uid)
  with get_total_debt_rows [OF assms] show ?thesis by (simp add: table_evolves_rows)
next
  case (GetAllLoansList uid)
  with get_all_loans_list_rows [OF assms] show ?thesis by (simp add: table_evolves_rows)
qed

lemma append_fresh_distinct:
  "distinct (map loan_id t) \<Longrightarrow> loan_id row = next_loan_id t \<Longrightarrow> distinct (map loan_id (t @ [row]))"
  using next_loan_id_fresh [of t] by auto

lemma run_distinct:
  assumes "distinct (map loan_id (loans s))"
  shows "distinct (map loan_id (loans (run svc now op s)))"
proof (cases op)
  case (CreateLoan lender borrower p r)
  with create_loan_rows [of svc now lender borrower p r s] assms show ?thesis
    by (auto simp del: distinct_append map_append intro: append_fresh_distinct)
next
  case (ConfirmLoan i uid)
  with rows_distinct_ids [OF confirm_loan_rows [OF assms] assms] show ?thesis by simp
next
  case (RepayAllLoans b)
  with rows_distinct_ids [OF repay_all_loans_rows [OF assms] assms] show ?thesis by simp
next
  case (RepayLoan b l a)
  with rows_distinct_ids [OF repay_loan_rows [OF assms] assms] show ?thesis by simp
next
  case (ForceCollect l b a)
  with rows_distinct_ids [OF force_collect_rows [OF assms] assms] show ?thesis by simp
next
  case (BorrowFromSystem b a)
  with borrow_from_system_rows [of svc now b a s] assms show ?thesis
    by (auto simp del: distinct_append map_append intro: append_fresh_distinct)
next
  case (CheckUserOverdueStatus uid)
  with rows_distinct_ids [OF check_user_overdue_status_rows [OF assms] assms] show ?thesis by simp
next
  case (GetTotalDebt uid)
  with rows_distinct_ids [OF get_total_debt_rows [OF assms] assms] show ?thesis by simp
next
  case (GetAllLoansList uid)
  with rows_distinct_ids [OF get_all_loans_list_rows [OF assms] assms] show ?thesis by simp
qed

lemma table_evolves_nth:
  assumes "table_evolves now t t'" "k < length t"
  shows "k < length t' \<and> row_evolves now (t ! k) (t' ! k)"
proof -
  from assms have "list_all2 (row_evolves now) t (take (length t) t')" "length t \<le> length t'"
    by (simp_all add: table_evolves_def)
  from list_all2_nthD [OF this(1) assms(2)] this(2) assms(2) show ?thesis by simp
qed

end
